theory Spec2Isabelle
  imports Complex_Main
begin

section \<open>Python values and errors\<close>

text \<open>
  The exceptions that the modelled statements of \<^verbatim>\<open>src/train.py\<close> can raise.
  An exception aborts the whole run (nothing in the file catches one), so every
  function of the model returns \<open>error + 'a\<close> and stops at the first \<open>Inl\<close>.
\<close>

datatype error = IndexError | AssertionError | ValueError | ZeroDivisionError

text \<open>
  \<^verbatim>\<open>xs[i]\<close> for an index that is never negative: Python raises IndexError out of range.
\<close>

definition list_get :: "'a list \<Rightarrow> nat \<Rightarrow> error + 'a" where
  "list_get xs i = (if i < length xs then Inr (xs ! i) else Inl IndexError)"

section \<open>The evaluation pass: the batch loop of \<^verbatim>\<open>test\<close> (lines 52 to 87)\<close>

text \<open>
  One position \<open>j\<close> of window \<open>i\<close> of a batch carries what the loop body reads at
  \<open>(i, j)\<close>: \<^verbatim>\<open>frame_error[i, j]\<close>, \<^verbatim>\<open>reconstruction[i, :, :, j]\<close> and
  \<^verbatim>\<open>test_batch[i, :, :, j]\<close>. A window is the list of its positions, so its length is
  \<^verbatim>\<open>frame_error[i].shape[0]\<close>, and a batch is the list of its windows, of length
  \<^verbatim>\<open>test_batch.shape[0]\<close>. Scalar errors are real numbers (float rounding is not
  modelled). A per-pixel array of the fixed 227 by 227 shape is a value of a ring
  \<open>'p\<close>: numpy's elementwise \<open>+\<close>, \<open>-\<close> and square on arrays of one shape. The
  parameter \<^verbatim>\<open>last\<close> of \<^verbatim>\<open>test\<close> is written \<open>last_pass\<close>, since \<open>last\<close> is a function on
  lists in HOL.
\<close>

type_synonym 'p position = "real \<times> 'p \<times> 'p"

type_synonym 'p window = "'p position list"

text \<open>
  The local variables of \<^verbatim>\<open>test\<close> that the batch loop reads and writes. A directory
  of \<^verbatim>\<open>dirs\<close> is represented by its sorted frame listing, so \<open>dirs ! k\<close> is what
  \<^verbatim>\<open>sorted(glob(os.path.join(dirs[k], '*.' + ext)))\<close> returns. \<open>saved_scores\<close> lists the
  \<^verbatim>\<open>np.save\<close> calls of line 86, each with the sequence index of the file name and the
  two arrays the saved map is computed from (their quotient, the resize and the running
  minimum and maximum are floating-point array arithmetic, left out).
\<close>

record ('f, 'p) eval_state =
  per_frame_error :: "real list list list"
  seq_idx :: nat
  f_idx :: nat
  fnames :: "'f list"
  im :: "'f option"
  anom_scores :: "'p list"
  inspection_count :: "int list"
  saved_scores :: "(nat \<times> 'p list \<times> int list) list"

text \<open>
  Lines 52 and 53. \<^verbatim>\<open>fnames\<close>, \<^verbatim>\<open>im\<close>, \<^verbatim>\<open>anom_scores\<close> and \<^verbatim>\<open>inspection_count\<close> are
  not bound yet in the source; each is assigned before its first read (line 59, and
  lines 65 to 67 since \<^verbatim>\<open>f_idx\<close> starts at 0).
\<close>

definition test_init :: "'f list list \<Rightarrow> ('f, 'p) eval_state" where
  "test_init dirs =
     \<lparr>per_frame_error = replicate (length dirs) [], seq_idx = 0, f_idx = 0, fnames = [],
      im = None, anom_scores = [], inspection_count = [], saved_scores = []\<rparr>"

text \<open>
  Lines 64 to 67, run when \<^verbatim>\<open>f_idx == 0\<close>. None of the four allocations looks at
  \<^verbatim>\<open>last\<close>. The assignment to \<^verbatim>\<open>per_frame_error[seq_idx]\<close> and the read of
  \<^verbatim>\<open>fnames[f_idx]\<close> raise IndexError out of range.
\<close>

definition test_allocate :: "('f, 'p::ring) eval_state \<Rightarrow> error + ('f, 'p) eval_state" where
  "test_allocate st =
     (if \<not> seq_idx st < length (per_frame_error st) then Inl IndexError
      else case list_get (fnames st) (f_idx st) of
        Inl e \<Rightarrow> Inl e
      | Inr first_frame \<Rightarrow>
          Inr (st\<lparr>per_frame_error :=
                      (per_frame_error st)[seq_idx st := replicate (length (fnames st)) []],
                   im := Some first_frame,
                   anom_scores := replicate (length (fnames st)) 0,
                   inspection_count := replicate (length (fnames st)) 0\<rparr>))"

text \<open>
  Lines 69 to 72, the body of the loop over \<open>j\<close>: only the update of \<^verbatim>\<open>anom_scores\<close>
  stands under \<^verbatim>\<open>if last\<close>; the counter and the error list are updated in every pass.
\<close>

definition test_position ::
  "bool \<Rightarrow> nat \<Rightarrow> 'p position \<Rightarrow> ('f, 'p::ring) eval_state \<Rightarrow> error + ('f, 'p) eval_state" where
  "test_position last_pass j pos st =
     (case pos of (e, r, t) \<Rightarrow>
        let k = f_idx st + j in
        if last_pass \<and> \<not> k < length (anom_scores st) then Inl IndexError
        else if \<not> k < length (inspection_count st) then Inl IndexError
        else if \<not> seq_idx st < length (per_frame_error st) then Inl IndexError
        else if \<not> k < length (per_frame_error st ! seq_idx st) then Inl IndexError
        else
          Inr (st\<lparr>anom_scores :=
                      (if last_pass then (anom_scores st)[k := anom_scores st ! k + (r - t) * (r - t)]
                       else anom_scores st),
                   inspection_count := (inspection_count st)[k := inspection_count st ! k + 1],
                   per_frame_error :=
                      (per_frame_error st)
                        [seq_idx st :=
                           (per_frame_error st ! seq_idx st)
                             [k := per_frame_error st ! seq_idx st ! k @ [e]]]\<rparr>))"

text \<open>Line 68: \<^verbatim>\<open>for j in range(frame_error[i].shape[0])\<close>, from position \<open>j\<close> on.\<close>

fun test_window ::
  "bool \<Rightarrow> nat \<Rightarrow> 'p window \<Rightarrow> ('f, 'p::ring) eval_state \<Rightarrow> error + ('f, 'p) eval_state" where
  "test_window last_pass j [] st = Inr st"
| "test_window last_pass j (pos # rest) st =
     (case test_position last_pass j pos st of
        Inl e \<Rightarrow> Inl e
      | Inr st' \<Rightarrow> test_window last_pass (Suc j) rest st')"

text \<open>
  Lines 73 to 87, the cursor. \<^verbatim>\<open>len(fnames) - data._tvol\<close> is a Python integer and may
  be negative. The refresh of \<^verbatim>\<open>fnames\<close> on line 78 stands under
  \<^verbatim>\<open>len(dirs) < seq_idx\<close>, where \<^verbatim>\<open>dirs[seq_idx]\<close> is out of range. The assertion of line
  80 reads the counters of the sequence just left. Lines 83 and 84 rebind
  \<^verbatim>\<open>anom_scores\<close> to the averaged and resized map; the variable is not read again before
  line 66 allocates it anew (\<^verbatim>\<open>f_idx\<close> is 0 then), and the field keeps the sums.
\<close>

definition test_advance ::
  "bool \<Rightarrow> int \<Rightarrow> 'f list list \<Rightarrow> ('f, 'p) eval_state \<Rightarrow> error + ('f, 'p) eval_state" where
  "test_advance last_pass tvol dirs st =
     (if int (f_idx st) < int (length (fnames st)) - tvol then Inr (st\<lparr>f_idx := f_idx st + 1\<rparr>)
      else
        let s = seq_idx st + 1 in
        case (if length dirs < s then list_get dirs s else Inr (fnames st)) of
          Inl e \<Rightarrow> Inl e
        | Inr fn \<Rightarrow>
            if \<not> list_all (\<lambda>c. 0 < c) (inspection_count st) then Inl AssertionError
            else
              Inr (st\<lparr>seq_idx := s, fnames := fn, f_idx := 0,
                       saved_scores :=
                         (if last_pass
                          then saved_scores st @ [(s - 1, anom_scores st, inspection_count st)]
                          else saved_scores st)\<rparr>))"

text \<open>Lines 63 to 72: the allocation under \<^verbatim>\<open>f_idx == 0\<close>, then the loop over \<open>j\<close>.\<close>

definition test_accumulate ::
  "bool \<Rightarrow> 'p window \<Rightarrow> ('f, 'p::ring) eval_state \<Rightarrow> error + ('f, 'p) eval_state" where
  "test_accumulate last_pass w st =
     (case (if f_idx st = 0 then test_allocate st else Inr st) of
        Inl e \<Rightarrow> Inl e
      | Inr st1 \<Rightarrow> test_window last_pass 0 w st1)"

text \<open>Lines 63 to 87: the body of the loop over the windows \<open>i\<close> of a batch.\<close>

definition test_item ::
  "bool \<Rightarrow> int \<Rightarrow> 'f list list \<Rightarrow> 'p window \<Rightarrow> ('f, 'p::ring) eval_state
     \<Rightarrow> error + ('f, 'p) eval_state" where
  "test_item last_pass tvol dirs w st =
     (case test_accumulate last_pass w st of
        Inl e \<Rightarrow> Inl e
      | Inr st2 \<Rightarrow> test_advance last_pass tvol dirs st2)"

text \<open>Line 62: \<^verbatim>\<open>for i in range(test_batch.shape[0])\<close>.\<close>

fun test_items ::
  "bool \<Rightarrow> int \<Rightarrow> 'f list list \<Rightarrow> 'p window list \<Rightarrow> ('f, 'p::ring) eval_state
     \<Rightarrow> error + ('f, 'p) eval_state" where
  "test_items last_pass tvol dirs [] st = Inr st"
| "test_items last_pass tvol dirs (w # ws) st =
     (case test_item last_pass tvol dirs w st of
        Inl e \<Rightarrow> Inl e
      | Inr st' \<Rightarrow> test_items last_pass tvol dirs ws st')"

text \<open>
  Lines 59 to 87, the body of the \<^verbatim>\<open>while\<close> loop for one batch. \<open>get_reconstructions\<close>
  stands for the model adapter's call of line 61 together with the indexing of its two
  results and of the batch: it gives the windows of the batch, position by position.
\<close>

definition test_batch_body ::
  "('b \<Rightarrow> 'p window list) \<Rightarrow> bool \<Rightarrow> int \<Rightarrow> 'f list list \<Rightarrow> 'b \<Rightarrow> ('f, 'p::ring) eval_state
     \<Rightarrow> error + ('f, 'p) eval_state" where
  "test_batch_body get_reconstructions last_pass tvol dirs test_batch st =
     (case list_get dirs (seq_idx st) of
        Inl e \<Rightarrow> Inl e
      | Inr fn \<Rightarrow>
          test_items last_pass tvol dirs (get_reconstructions test_batch) (st\<lparr>fnames := fn\<rparr>))"

text \<open>
  Lines 55 to 58, the \<^verbatim>\<open>while True\<close> loop. The data source is external: a state \<open>'d\<close>
  and its \<^verbatim>\<open>get_test_batch\<close>, which answers a batch or \<^verbatim>\<open>None\<close>. Nothing bounds the
  number of batches a source may answer, so the loop is a partial function: the value
  \<open>None\<close> of the model is a loop that never ends. A returned pair holds the outcome of
  the pass and the data source as the loop left it.
\<close>

partial_function (option) test_while ::
  "('d \<Rightarrow> 'b option \<times> 'd) \<Rightarrow> ('b \<Rightarrow> 'p window list) \<Rightarrow> bool \<Rightarrow> int \<Rightarrow> 'f list list \<Rightarrow> 'd
     \<Rightarrow> ('f, 'p::ring) eval_state \<Rightarrow> ((error + ('f, 'p) eval_state) \<times> 'd) option" where
  "test_while get_test_batch get_reconstructions last_pass tvol dirs d st =
     (case get_test_batch d of
        (None, d') \<Rightarrow> Some (Inr st, d')
      | (Some test_batch, d') \<Rightarrow>
          (case test_batch_body get_reconstructions last_pass tvol dirs test_batch st of
             Inl e \<Rightarrow> Some (Inl e, d')
           | Inr st' \<Rightarrow> test_while get_test_batch get_reconstructions last_pass tvol dirs d' st'))"

declare test_while.simps [code]

text \<open>
  A data source that answers the batches \<open>bs\<close>, in this order, and then \<^verbatim>\<open>None\<close>,
  which leaves it in the state \<open>d_end\<close>.
\<close>

fun yields :: "('d \<Rightarrow> 'b option \<times> 'd) \<Rightarrow> 'd \<Rightarrow> 'b list \<Rightarrow> 'd \<Rightarrow> bool" where
  "yields get_test_batch d [] d_end = (get_test_batch d = (None, d_end))"
| "yields get_test_batch d (b # bs) d_end =
     (case get_test_batch d of
        (None, d') \<Rightarrow> False
      | (Some b', d') \<Rightarrow> b' = b \<and> yields get_test_batch d' bs d_end)"

text \<open>The simplest such source: its state is the list of the batches still to come.\<close>

definition list_source :: "'b list \<Rightarrow> 'b option \<times> 'b list" where
  "list_source bs = (case bs of [] \<Rightarrow> (None, []) | b # rest \<Rightarrow> (Some b, rest))"

text \<open>The loop body run on the batches of a list, one after the other.\<close>

fun test_pass ::
  "('b \<Rightarrow> 'p window list) \<Rightarrow> bool \<Rightarrow> int \<Rightarrow> 'f list list \<Rightarrow> 'b list \<Rightarrow> ('f, 'p::ring) eval_state
     \<Rightarrow> error + ('f, 'p) eval_state" where
  "test_pass get_reconstructions last_pass tvol dirs [] st = Inr st"
| "test_pass get_reconstructions last_pass tvol dirs (b # bs) st =
     (case test_batch_body get_reconstructions last_pass tvol dirs b st of
        Inl e \<Rightarrow> Inl e
      | Inr st' \<Rightarrow> test_pass get_reconstructions last_pass tvol dirs bs st')"

section \<open>Per-video normalisation: \<^verbatim>\<open>per_video_normalize\<close> (lines 120 to 124)\<close>

text \<open>
  The entries of the frame-error vectors are finite real numbers here (rounding is not
  modelled). A quotient of numpy arrays does not raise on a zero divisor: the entry is
  \<^verbatim>\<open>nan\<close> for \<^verbatim>\<open>0.0 / 0.0\<close> and an infinity otherwise (numpy only prints a warning), so
  the result of the division is a value of \<open>npfloat\<close>.
\<close>

datatype npfloat = Finite real | NaN | PosInf | NegInf

definition np_divide :: "real \<Rightarrow> real \<Rightarrow> npfloat" where
  "np_divide a b =
     (if b \<noteq> 0 then Finite (a / b) else if a = 0 then NaN else if 0 < a then PosInf else NegInf)"

text \<open>\<^verbatim>\<open>np.min\<close> and \<^verbatim>\<open>np.max\<close> raise ValueError on an array of size zero.\<close>

definition np_min :: "real list \<Rightarrow> error + real" where
  "np_min v = (case v of [] \<Rightarrow> Inl ValueError | x # xs \<Rightarrow> Inr (fold min xs x))"

definition np_max :: "real list \<Rightarrow> error + real" where
  "np_max v = (case v of [] \<Rightarrow> Inl ValueError | x # xs \<Rightarrow> Inr (fold max xs x))"

text \<open>
  Line 123, the right-hand side for one vector:
  \<^verbatim>\<open>(pfe[i] - np.min(pfe[i])) / (np.max(pfe[i]) - np.min(pfe[i]))\<close>.
\<close>

definition normalize_video :: "real list \<Rightarrow> error + npfloat list" where
  "normalize_video v =
     (case np_min v of
        Inl e \<Rightarrow> Inl e
      | Inr mn \<Rightarrow>
          (case np_max v of
             Inl e \<Rightarrow> Inl e
           | Inr mx \<Rightarrow> Inr (map (\<lambda>x. np_divide (x - mn) (mx - mn)) v)))"

text \<open>Lines 121 to 124: the vectors are normalised in order, each with line 123.\<close>

fun per_video_normalize :: "real list list \<Rightarrow> error + npfloat list list" where
  "per_video_normalize [] = Inr []"
| "per_video_normalize (v # vs) =
     (case normalize_video v of
        Inl e \<Rightarrow> Inl e
      | Inr r \<Rightarrow>
          (case per_video_normalize vs of
             Inl e \<Rightarrow> Inl e
           | Inr rs \<Rightarrow> Inr (r # rs)))"

section \<open>The training loop: \<^verbatim>\<open>train\<close> (lines 15 to 42)\<close>

text \<open>
  The calls \<^verbatim>\<open>train\<close> makes that act on the world outside it, in the order it makes
  them: the training step of line 21, the evaluation passes of lines 26 and 41 (with
  their \<^verbatim>\<open>last\<close> flag), the checkpoint calls of lines 33 and 40 (with the path), the
  log messages (line 16; line 24 with \<^verbatim>\<open>print_every\<close> and the slice whose mean is
  logged; lines 27 and 28 with the iteration and the number), the two \<^verbatim>\<open>np.save\<close> calls
  (path and array) and the three plot calls (arrays, path, level).
\<close>

datatype call =
    BatchTrain
  | Test bool
  | SaveModel string
  | RestoreModel string
  | LogStart
  | LogTrainLoss int "real list"
  | LogFrameAuc int real
  | LogValidLoss int real
  | NpSave string "real list"
  | PlotLoss "real list" "real list" string
  | PlotAuc "real list" string string

text \<open>
  The collaborators of \<^verbatim>\<open>train\<close>, none of them in this file: the data source
  (\<^verbatim>\<open>data.get_train_batch()\<close>, on a state \<open>'d\<close>), the model adapter (\<^verbatim>\<open>batch_train\<close>,
  \<^verbatim>\<open>save_model\<close>, \<^verbatim>\<open>restore_model\<close>, on a state \<open>'m\<close> that stands for the model object
  with what it keeps on disk), and the evaluation \<^verbatim>\<open>test\<close>, whose scoring tail calls
  scikit-learn: \<open>test env last d m\<close> is the call
  \<^verbatim>\<open>test(data, model, data_dir, ext, frame_gt_path, result_path, last)\<close>, which raises or
  returns \<^verbatim>\<open>(frame_auc, frame_eer, valid_loss)\<close> and leaves the data source in a new
  state.
\<close>

record ('d, 'm, 'b) env =
  get_train_batch :: "'d \<Rightarrow> 'b \<times> 'd"
  batch_train :: "'b \<Rightarrow> 'm \<Rightarrow> real \<times> 'm"
  test :: "bool \<Rightarrow> 'd \<Rightarrow> 'm \<Rightarrow> error + ((real \<times> real \<times> real) \<times> 'd)"
  save_model :: "string \<Rightarrow> 'm \<Rightarrow> 'm"
  restore_model :: "string \<Rightarrow> 'm \<Rightarrow> 'm"

text \<open>The local variables of \<^verbatim>\<open>train\<close> (lines 17 and 18), its two objects and its calls.\<close>

record ('d, 'm) train_state =
  data :: 'd
  model :: 'm
  frame_aucs :: "real list"
  frame_eers :: "real list"
  pixel_aucs :: "real list"
  pixel_eers :: "real list"
  losses :: "real list"
  valid_losses :: "real list"
  best_auc :: real
  calls :: "call list"

text \<open>
  \<^verbatim>\<open>xs[k:]\<close> for a Python integer \<open>k\<close>: a negative \<open>k\<close> counts from the end, and both
  ends are clamped.
\<close>

definition py_slice_from :: "int \<Rightarrow> 'a list \<Rightarrow> 'a list" where
  "py_slice_from k xs =
     (if 0 \<le> k then drop (nat k) xs else drop (length xs - nat (- k)) xs)"

text \<open>\<^verbatim>\<open>os.path.join(a, b)\<close> of \<^verbatim>\<open>posixpath\<close>, for two components.\<close>

definition os_path_join :: "string \<Rightarrow> string \<Rightarrow> string" where
  "os_path_join a b =
     (if b \<noteq> [] \<and> hd b = CHR ''/'' then b
      else if a = [] \<or> last a = CHR ''/'' then a @ b
      else a @ ''/'' @ b)"

text \<open>
  Lines 20 to 33, the body of the \<^verbatim>\<open>for\<close> loop at iteration \<open>i\<close>. An exception leaves
  with the state reached, so that the calls made before it are not lost. \<^verbatim>\<open>i % print_every\<close>
  raises ZeroDivisionError for \<^verbatim>\<open>print_every == 0\<close>; Python's \<^verbatim>\<open>%\<close> takes the sign of
  the divisor, as \<open>mod\<close> on \<open>int\<close> does.
\<close>

definition train_step ::
  "('d, 'm, 'b) env \<Rightarrow> string \<Rightarrow> int \<Rightarrow> int \<Rightarrow> ('d, 'm) train_state
     \<Rightarrow> (error \<times> ('d, 'm) train_state) + ('d, 'm) train_state" where
  "train_step env model_path print_every i st =
     (case get_train_batch env (data st) of (tr_batch, d1) \<Rightarrow>
      case batch_train env tr_batch (model st) of (loss, m1) \<Rightarrow>
        let st1 = st\<lparr>data := d1, model := m1, losses := losses st @ [loss],
                     calls := calls st @ [BatchTrain]\<rparr> in
        if print_every = 0 then Inl (ZeroDivisionError, st1)
        else if i mod print_every = 0 then
          let st2 = st1\<lparr>calls := calls st1 @
                         [LogTrainLoss print_every (py_slice_from (- print_every) (losses st1)),
                          Test False]\<rparr> in
          (case test env False (data st2) (model st2) of
             Inl e \<Rightarrow> Inl (e, st2)
           | Inr ((frame_auc, frame_eer, valid_loss), d2) \<Rightarrow>
               let st3 = st2\<lparr>data := d2,
                             calls := calls st2 @ [LogFrameAuc i frame_auc, LogValidLoss i valid_loss],
                             frame_aucs := frame_aucs st2 @ [frame_auc],
                             frame_eers := frame_eers st2 @ [frame_eer],
                             valid_losses := valid_losses st2 @ [valid_loss]\<rparr> in
               if best_auc st3 < frame_auc
               then Inr (st3\<lparr>best_auc := frame_auc,
                             model := save_model env model_path (model st3),
                             calls := calls st3 @ [SaveModel model_path]\<rparr>)
               else Inr st3)
        else Inr st1)"

text \<open>Line 19: the \<^verbatim>\<open>for\<close> loop over the iterations of a list.\<close>

fun train_loop ::
  "('d, 'm, 'b) env \<Rightarrow> string \<Rightarrow> int \<Rightarrow> int list \<Rightarrow> ('d, 'm) train_state
     \<Rightarrow> (error \<times> ('d, 'm) train_state) + ('d, 'm) train_state" where
  "train_loop env model_path print_every [] st = Inr st"
| "train_loop env model_path print_every (i # is) st =
     (case train_step env model_path print_every i st of
        Inl x \<Rightarrow> Inl x
      | Inr st' \<Rightarrow> train_loop env model_path print_every is st')"

text \<open>Lines 16 to 18: the state before the loop.\<close>

definition train_init :: "'d \<Rightarrow> 'm \<Rightarrow> ('d, 'm) train_state" where
  "train_init d m =
     \<lparr>data = d, model = m, frame_aucs = [], frame_eers = [], pixel_aucs = [], pixel_eers = [],
      losses = [], valid_losses = [], best_auc = 0, calls = [LogStart]\<rparr>"

text \<open>Lines 34 to 40: the artifacts, the plots and the restore, after the loop.\<close>

definition train_persist ::
  "('d, 'm, 'b) env \<Rightarrow> string \<Rightarrow> string \<Rightarrow> ('d, 'm) train_state \<Rightarrow> ('d, 'm) train_state" where
  "train_persist env result_path model_path st =
     st\<lparr>model := restore_model env model_path (model st),
        calls := calls st @
          [NpSave (os_path_join result_path ''frame_aucs.npy'') (frame_aucs st),
           NpSave (os_path_join result_path ''pixel_aucs.npy'') (pixel_aucs st),
           PlotLoss (losses st) (valid_losses st) result_path,
           PlotAuc (frame_aucs st) result_path ''Frame'',
           PlotAuc (pixel_aucs st) result_path ''Pixel'',
           RestoreModel model_path]\<rparr>"

text \<open>
  \<^verbatim>\<open>train\<close>: \<^verbatim>\<open>range(num_iteration + 1)\<close> is \<open>[0..num_iteration]\<close>, empty for a negative
  \<^verbatim>\<open>num_iteration\<close>. The arguments \<^verbatim>\<open>data_dir\<close>, \<^verbatim>\<open>ext\<close> and \<^verbatim>\<open>frame_gt_path\<close> are
  only handed on to \<^verbatim>\<open>test\<close>. The result is the returned pair with the state reached.
\<close>

definition train ::
  "('d, 'm, 'b) env \<Rightarrow> int \<Rightarrow> string \<Rightarrow> string \<Rightarrow> int \<Rightarrow> 'd \<Rightarrow> 'm
     \<Rightarrow> (error \<times> ('d, 'm) train_state) + ((real \<times> real) \<times> ('d, 'm) train_state)" where
  "train env num_iteration result_path model_path print_every d m =
     (case train_loop env model_path print_every [0..num_iteration] (train_init d m) of
        Inl x \<Rightarrow> Inl x
      | Inr st \<Rightarrow>
          let st1 = train_persist env result_path model_path st;
              st2 = st1\<lparr>calls := calls st1 @ [Test True]\<rparr> in
          (case test env True (data st2) (model st2) of
             Inl e \<Rightarrow> Inl (e, st2)
           | Inr ((frame_auc, frame_eer, valid_loss), d') \<Rightarrow>
               Inr ((frame_auc, frame_eer), st2\<lparr>data := d'\<rparr>)))"

section \<open>Projections of a run and reference definitions\<close>

text \<open>The state a loop of \<^verbatim>\<open>train\<close>, or \<^verbatim>\<open>train\<close> itself, has reached, however it ended.\<close>

definition reached :: "(error \<times> 's) + 's \<Rightarrow> 's" where
  "reached r = (case r of Inl (e, st) \<Rightarrow> st | Inr st \<Rightarrow> st)"

definition outcome_state :: "(error \<times> 's) + ('r \<times> 's) \<Rightarrow> 's" where
  "outcome_state r = (case r of Inl (e, st) \<Rightarrow> st | Inr (res, st) \<Rightarrow> st)"



text \<open>The calls that write an array file or a plot.\<close>

definition is_artifact :: "call \<Rightarrow> bool" where
  "is_artifact c =
     (case c of NpSave path xs \<Rightarrow> True | PlotLoss xs ys path \<Rightarrow> True
      | PlotAuc xs path level \<Rightarrow> True | _ \<Rightarrow> False)"


section \<open>Example inputs\<close>

text \<open>
  A window of two positions with the frame errors 1 and 2; its first reconstructed
  pixel differs from the input by 1.
\<close>

definition ex_window :: "real window" where
  "ex_window = [(1, 1, 0), (2, 0, 0)]"

text \<open>
  Collaborators for a run of \<^verbatim>\<open>train\<close>: the data source holds the frame AUCs that the
  coming evaluations return (0 once the list is used up), the model counts its training
  steps, and every loss is 0.
\<close>

definition ex_env :: "(real list, nat, unit) env" where
  "ex_env =
     \<lparr>get_train_batch = (\<lambda>d. ((), d)),
      batch_train = (\<lambda>b m. (0, Suc m)),
      test = (\<lambda>l d m. case d of [] \<Rightarrow> Inr ((0, 0, 0), []) | a # rest \<Rightarrow> Inr ((a, 0, 0), rest)),
      save_model = (\<lambda>path m. m),
      restore_model = (\<lambda>path m. m)\<rparr>"

section \<open>The window loop and the cursor\<close>

lemma list_get_simps:
  "i < length xs \<Longrightarrow> list_get xs i = Inr (xs ! i)"
  "\<not> i < length xs \<Longrightarrow> list_get xs i = Inl IndexError"
  by (simp_all add: list_get_def)

lemma test_position_Inr:
  assumes "test_position last_pass j pos st = Inr st'"
  shows "f_idx st + j < length (inspection_count st)"
    and "seq_idx st < length (per_frame_error st)"
    and "f_idx st + j < length (per_frame_error st ! seq_idx st)"
    and "last_pass \<Longrightarrow> f_idx st + j < length (anom_scores st)"
    and "seq_idx st' = seq_idx st" and "f_idx st' = f_idx st" and "fnames st' = fnames st"
    and "im st' = im st" and "saved_scores st' = saved_scores st"
    and "inspection_count st' =
           (inspection_count st)[f_idx st + j := inspection_count st ! (f_idx st + j) + 1]"
    and "per_frame_error st' =
           (per_frame_error st)
             [seq_idx st :=
                (per_frame_error st ! seq_idx st)
                  [f_idx st + j := per_frame_error st ! seq_idx st ! (f_idx st + j) @ [fst pos]]]"
    and "anom_scores st' =
           (if last_pass
            then (anom_scores st)
                   [f_idx st + j :=
                      anom_scores st ! (f_idx st + j)
                        + (fst (snd pos) - snd (snd pos)) * (fst (snd pos) - snd (snd pos))]
            else anom_scores st)"
  using assms
  by (auto simp: test_position_def Let_def split: prod.splits if_splits)

lemma test_window_Cons_Inr:
  assumes "test_window last_pass j (pos # rest) st = Inr st'"
  obtains st1 where "test_position last_pass j pos st = Inr st1"
    and "test_window last_pass (Suc j) rest st1 = Inr st'"
  using assms by (auto split: sum.splits)

lemma test_window_frame:
  assumes "test_window last_pass j ps st = Inr st'"
  shows "seq_idx st' = seq_idx st \<and> f_idx st' = f_idx st \<and> fnames st' = fnames st
       \<and> im st' = im st \<and> saved_scores st' = saved_scores st
       \<and> length (inspection_count st') = length (inspection_count st)
       \<and> length (anom_scores st') = length (anom_scores st)
       \<and> length (per_frame_error st') = length (per_frame_error st)"
  using assms
proof (induction ps arbitrary: j st)
  case Nil
  then show ?case by simp
next
  case (Cons pos rest)
  from Cons.prems obtain st1 where p: "test_position last_pass j pos st = Inr st1"
    and w: "test_window last_pass (Suc j) rest st1 = Inr st'"
    by (rule test_window_Cons_Inr)
  from Cons.IH [OF w] test_position_Inr [OF p] show ?case by simp
qed

lemma test_window_bound:
  assumes "test_window last_pass j ps st = Inr st'" and "ps \<noteq> []"
  shows "f_idx st + j + length ps \<le> length (inspection_count st)"
  using assms
proof (induction ps arbitrary: j st)
  case Nil
  then show ?case by simp
next
  case (Cons pos rest)
  from Cons.prems(1) obtain st1 where p: "test_position last_pass j pos st = Inr st1"
    and w: "test_window last_pass (Suc j) rest st1 = Inr st'"
    by (rule test_window_Cons_Inr)
  note q = test_position_Inr [OF p]
  show ?case
  proof (cases "rest = []")
    case True
    with q(1) show ?thesis by simp
  next
    case False
    from Cons.IH [OF w False] q(6) q(10) show ?thesis by simp
  qed
qed

lemma test_window_count:
  assumes "test_window last_pass j ps st = Inr st'"
  shows "inspection_count st' ! k =
           inspection_count st ! k
             + (if f_idx st + j \<le> k \<and> k < f_idx st + j + length ps then 1 else 0)"
  using assms
proof (induction ps arbitrary: j st)
  case Nil
  then show ?case by simp
next
  case (Cons pos rest)
  from Cons.prems obtain st1 where p: "test_position last_pass j pos st = Inr st1"
    and w: "test_window last_pass (Suc j) rest st1 = Inr st'"
    by (rule test_window_Cons_Inr)
  note q = test_position_Inr [OF p]
  have ih: "inspection_count st' ! k =
      inspection_count st1 ! k
        + (if f_idx st + Suc j \<le> k \<and> k < f_idx st + Suc j + length rest then 1 else 0)"
    using Cons.IH [OF w] q(6) by simp
  show ?case
  proof (cases "k = f_idx st + j")
    case True
    with ih q(1) q(10) show ?thesis by simp
  next
    case False
    with ih q(10) show ?thesis by auto
  qed
qed

lemma test_window_errors:
  assumes "test_window last_pass j ps st = Inr st'"
  shows "per_frame_error st' ! s ! k =
           per_frame_error st ! s ! k
             @ (if s = seq_idx st \<and> f_idx st + j \<le> k \<and> k < f_idx st + j + length ps
                then [fst (ps ! (k - (f_idx st + j)))] else [])"
  using assms
proof (induction ps arbitrary: j st)
  case Nil
  then show ?case by simp
next
  case (Cons pos rest)
  from Cons.prems obtain st1 where p: "test_position last_pass j pos st = Inr st1"
    and w: "test_window last_pass (Suc j) rest st1 = Inr st'"
    by (rule test_window_Cons_Inr)
  note q = test_position_Inr [OF p]
  have ih: "per_frame_error st' ! s ! k =
      per_frame_error st1 ! s ! k
        @ (if s = seq_idx st \<and> f_idx st + Suc j \<le> k \<and> k < f_idx st + Suc j + length rest
           then [fst (rest ! (k - (f_idx st + Suc j)))] else [])"
    using Cons.IH [OF w] q(5) q(6) by simp
  show ?case
  proof (cases "s = seq_idx st \<and> k = f_idx st + j")
    case True
    with ih q(2) q(3) q(11) show ?thesis by simp
  next
    case False
    then have "per_frame_error st1 ! s ! k = per_frame_error st ! s ! k"
      using q(11) q(2) by (cases "s = seq_idx st") auto
    moreover have "f_idx st + Suc j \<le> k \<Longrightarrow> (pos # rest) ! (k - (f_idx st + j)) = rest ! (k - (f_idx st + Suc j))"
      by (simp add: Suc_diff_le)
    ultimately show ?thesis using ih False by auto
  qed
qed

lemma test_window_rows:
  assumes "test_window last_pass j ps st = Inr st'"
  shows "length (per_frame_error st' ! s) = length (per_frame_error st ! s)"
  using assms
proof (induction ps arbitrary: j st)
  case Nil
  then show ?case by simp
next
  case (Cons pos rest)
  from Cons.prems obtain st1 where p: "test_position last_pass j pos st = Inr st1"
    and w: "test_window last_pass (Suc j) rest st1 = Inr st'"
    by (rule test_window_Cons_Inr)
  note q = test_position_Inr [OF p]
  have "length (per_frame_error st1 ! s) = length (per_frame_error st ! s)"
    using q(11) q(2) by (cases "s = seq_idx st") auto
  with Cons.IH [OF w] show ?case by simp
qed

lemma test_window_scores_not_last:
  assumes "test_window False j ps st = Inr st'"
  shows "anom_scores st' = anom_scores st"
  using assms
proof (induction ps arbitrary: j st)
  case Nil
  then show ?case by simp
next
  case (Cons pos rest)
  from Cons.prems obtain st1 where p: "test_position False j pos st = Inr st1"
    and w: "test_window False (Suc j) rest st1 = Inr st'"
    by (rule test_window_Cons_Inr)
  from Cons.IH [OF w] test_position_Inr(12) [OF p] show ?case by simp
qed

lemma test_window_scores_last:
  assumes "test_window True j ps st = Inr st'"
  shows "anom_scores st' ! k =
           anom_scores st ! k
             + (if f_idx st + j \<le> k \<and> k < f_idx st + j + length ps
                then (fst (snd (ps ! (k - (f_idx st + j)))) - snd (snd (ps ! (k - (f_idx st + j)))))
                     * (fst (snd (ps ! (k - (f_idx st + j)))) - snd (snd (ps ! (k - (f_idx st + j)))))
                else 0)"
  using assms
proof (induction ps arbitrary: j st)
  case Nil
  then show ?case by auto
next
  case (Cons pos rest)
  from Cons.prems obtain st1 where p: "test_position True j pos st = Inr st1"
    and w: "test_window True (Suc j) rest st1 = Inr st'"
    by (rule test_window_Cons_Inr)
  note q = test_position_Inr [OF p]
  have ih: "anom_scores st' ! k =
      anom_scores st1 ! k
        + (if f_idx st + Suc j \<le> k \<and> k < f_idx st + Suc j + length rest
           then (fst (snd (rest ! (k - (f_idx st + Suc j)))) - snd (snd (rest ! (k - (f_idx st + Suc j)))))
                * (fst (snd (rest ! (k - (f_idx st + Suc j)))) - snd (snd (rest ! (k - (f_idx st + Suc j)))))
           else 0)"
    using Cons.IH [OF w] q(6) by simp
  show ?case
  proof (cases "k = f_idx st + j")
    case True
    with ih q(4) q(12) show ?thesis by simp
  next
    case False
    then have "anom_scores st1 ! k = anom_scores st ! k"
      using q(12) by simp
    moreover have "f_idx st + Suc j \<le> k \<Longrightarrow> (pos # rest) ! (k - (f_idx st + j)) = rest ! (k - (f_idx st + Suc j))"
      by (simp add: Suc_diff_le)
    ultimately show ?thesis using ih False by auto
  qed
qed

lemma test_allocate_Inr:
  assumes "test_allocate st = Inr st1"
  shows "seq_idx st < length (per_frame_error st)" and "f_idx st < length (fnames st)"
    and "seq_idx st1 = seq_idx st" and "f_idx st1 = f_idx st" and "fnames st1 = fnames st"
    and "saved_scores st1 = saved_scores st"
    and "inspection_count st1 = replicate (length (fnames st)) 0"
    and "anom_scores st1 = replicate (length (fnames st)) 0"
    and "per_frame_error st1 =
           (per_frame_error st)[seq_idx st := replicate (length (fnames st)) []]"
  using assms
  by (auto simp: test_allocate_def list_get_def split: if_splits)

lemma test_advance_Inr:
  assumes "test_advance last_pass tvol dirs st = Inr st'"
  shows "if int (f_idx st) < int (length (fnames st)) - tvol
         then seq_idx st' = seq_idx st \<and> f_idx st' = f_idx st + 1
         else seq_idx st' = seq_idx st + 1 \<and> f_idx st' = 0
              \<and> list_all (\<lambda>c. 0 < c) (inspection_count st)"
    and "inspection_count st' = inspection_count st"
    and "anom_scores st' = anom_scores st"
    and "per_frame_error st' = per_frame_error st"
    and "fnames st' = fnames st"
  using assms
  by (auto simp: test_advance_def Let_def list_get_def split: if_splits sum.splits)

lemma test_accumulate_Inr:
  assumes "test_accumulate last_pass w st = Inr st2"
  obtains st1 where "if f_idx st = 0 then test_allocate st = Inr st1 else st1 = st"
    and "test_window last_pass 0 w st1 = Inr st2"
  using assms by (auto simp: test_accumulate_def split: sum.splits if_splits)




lemma yields_list_source: "yields list_source bs bs []"
  by (induction bs) (simp_all add: list_source_def)


lemma test_accumulate_effect:
  assumes "test_accumulate last_pass w st = Inr st2"
  shows "seq_idx st2 = seq_idx st" and "f_idx st2 = f_idx st" and "fnames st2 = fnames st"
    and "saved_scores st2 = saved_scores st"
    and "f_idx st = 0 \<Longrightarrow>
           length (inspection_count st2) = length (fnames st)
         \<and> length (anom_scores st2) = length (fnames st)
         \<and> length (per_frame_error st2 ! seq_idx st) = length (fnames st)"
    and "f_idx st \<noteq> 0 \<Longrightarrow>
           length (inspection_count st2) = length (inspection_count st)
         \<and> length (anom_scores st2) = length (anom_scores st)
         \<and> length (per_frame_error st2 ! seq_idx st) = length (per_frame_error st ! seq_idx st)"
    and "w \<noteq> [] \<Longrightarrow> f_idx st + length w \<le> length (inspection_count st2)"
    and "k < length (inspection_count st2) \<Longrightarrow>
           inspection_count st2 ! k =
             (if f_idx st = 0 then 0 else inspection_count st ! k)
               + (if f_idx st \<le> k \<and> k < f_idx st + length w then 1 else 0)"
    and "j < length w \<Longrightarrow>
           per_frame_error st2 ! seq_idx st ! (f_idx st + j) =
             (if f_idx st = 0 then [] else per_frame_error st ! seq_idx st ! (f_idx st + j))
               @ [fst (w ! j)]"
    and "\<not> last_pass \<Longrightarrow>
           anom_scores st2 =
             (if f_idx st = 0 then replicate (length (fnames st)) 0 else anom_scores st)"
    and "last_pass \<Longrightarrow> j < length w \<Longrightarrow>
           anom_scores st2 ! (f_idx st + j) =
             (if f_idx st = 0 then 0 else anom_scores st ! (f_idx st + j))
               + (fst (snd (w ! j)) - snd (snd (w ! j))) * (fst (snd (w ! j)) - snd (snd (w ! j)))"
proof -
  from assms obtain st1
    where al: "if f_idx st = 0 then test_allocate st = Inr st1 else st1 = st"
      and wi: "test_window last_pass 0 w st1 = Inr st2"
    by (rule test_accumulate_Inr)
  note fr = test_window_frame [OF wi]
  have same: "seq_idx st1 = seq_idx st" "f_idx st1 = f_idx st" "fnames st1 = fnames st"
      "saved_scores st1 = saved_scores st"
    using al test_allocate_Inr(3-6) [of st st1] by (auto split: if_splits)
  have bound: "w \<noteq> [] \<Longrightarrow> f_idx st + length w \<le> length (inspection_count st1)"
    using test_window_bound [OF wi] same by simp
  show "seq_idx st2 = seq_idx st" and "f_idx st2 = f_idx st" and "fnames st2 = fnames st"
    and "saved_scores st2 = saved_scores st"
    using fr same by simp_all
  show "f_idx st = 0 \<Longrightarrow>
           length (inspection_count st2) = length (fnames st)
         \<and> length (anom_scores st2) = length (fnames st)
         \<and> length (per_frame_error st2 ! seq_idx st) = length (fnames st)"
    using al test_allocate_Inr [of st st1] fr test_window_rows [OF wi, of "seq_idx st"]
    by simp
  show "f_idx st \<noteq> 0 \<Longrightarrow>
           length (inspection_count st2) = length (inspection_count st)
         \<and> length (anom_scores st2) = length (anom_scores st)
         \<and> length (per_frame_error st2 ! seq_idx st) = length (per_frame_error st ! seq_idx st)"
    using al fr test_window_rows [OF wi, of "seq_idx st"] by simp
  show "w \<noteq> [] \<Longrightarrow> f_idx st + length w \<le> length (inspection_count st2)"
    using bound fr by simp
  show "k < length (inspection_count st2) \<Longrightarrow>
           inspection_count st2 ! k =
             (if f_idx st = 0 then 0 else inspection_count st ! k)
               + (if f_idx st \<le> k \<and> k < f_idx st + length w then 1 else 0)"
    using test_window_count [OF wi, of k] al test_allocate_Inr(7) [of st st1] fr same
    by (auto split: if_splits)
  show "j < length w \<Longrightarrow>
           per_frame_error st2 ! seq_idx st ! (f_idx st + j) =
             (if f_idx st = 0 then [] else per_frame_error st ! seq_idx st ! (f_idx st + j))
               @ [fst (w ! j)]"
  proof -
    assume j: "j < length w"
    then have "w \<noteq> []" by auto
    from bound [OF this] j have in_range: "f_idx st + j < length (inspection_count st1)"
      by simp
    have "per_frame_error st1 ! seq_idx st ! (f_idx st + j) =
            (if f_idx st = 0 then [] else per_frame_error st ! seq_idx st ! (f_idx st + j))"
    proof (cases "f_idx st = 0")
      case True
      with al have a: "test_allocate st = Inr st1" by simp
      from test_allocate_Inr [OF a] in_range True show ?thesis by simp
    next
      case False
      with al show ?thesis by simp
    qed
    with test_window_errors [OF wi, of "seq_idx st" "f_idx st + j"] same j
    show ?thesis by simp
  qed
  show "\<not> last_pass \<Longrightarrow>
           anom_scores st2 =
             (if f_idx st = 0 then replicate (length (fnames st)) 0 else anom_scores st)"
    using test_window_scores_not_last [of 0 w st1 st2] wi al test_allocate_Inr(8) [of st st1]
    by (auto split: if_splits)
  show "last_pass \<Longrightarrow> j < length w \<Longrightarrow>
           anom_scores st2 ! (f_idx st + j) =
             (if f_idx st = 0 then 0 else anom_scores st ! (f_idx st + j))
               + (fst (snd (w ! j)) - snd (snd (w ! j))) * (fst (snd (w ! j)) - snd (snd (w ! j)))"
  proof -
    assume l: last_pass and j: "j < length w"
    then have "w \<noteq> []" by auto
    from bound [OF this] j have in_range: "f_idx st + j < length (inspection_count st1)"
      by simp
    have "anom_scores st1 ! (f_idx st + j) =
            (if f_idx st = 0 then 0 else anom_scores st ! (f_idx st + j))"
    proof (cases "f_idx st = 0")
      case True
      with al have a: "test_allocate st = Inr st1" by simp
      from test_allocate_Inr [OF a] in_range True show ?thesis by simp
    next
      case False
      with al show ?thesis by simp
    qed
    with test_window_scores_last [of 0 w st1 st2 "f_idx st + j"] wi l same j
    show ?thesis by simp
  qed
qed


subsection \<open>A sequence that opens at a batch boundary\<close>

text \<open>
  The conditions under which the loops do not raise, and the inspection counters of a
  sequence of \<open>L\<close> frames under windows of length \<open>T\<close>: after the windows that begin at
  the frames \<open>0, ..., j - 1\<close>, frame \<open>k\<close> has been inspected
  \<open>min j (k + 1) - (k + 1 - T)\<close> times (in natural numbers, where \<open>-\<close> stops at 0).
\<close>

lemma sum_list_incr:
  "k < length xs \<Longrightarrow> sum_list (xs[k := xs ! k + 1]) = sum_list xs + (1 :: int)"
proof (induction xs arbitrary: k)
  case Nil
  then show ?case by simp
next
  case (Cons a xs)
  then show ?case by (cases k) simp_all
qed

lemma test_window_sum:
  assumes "test_window last_pass j ps st = Inr st'"
  shows "sum_list (inspection_count st') = sum_list (inspection_count st) + int (length ps)"
  using assms
proof (induction ps arbitrary: j st)
  case Nil
  then show ?case by simp
next
  case (Cons pos rest)
  from Cons.prems obtain st1 where p: "test_position last_pass j pos st = Inr st1"
    and w: "test_window last_pass (Suc j) rest st1 = Inr st'"
    by (rule test_window_Cons_Inr)
  note q = test_position_Inr [OF p]
  have "sum_list (inspection_count st1) = sum_list (inspection_count st) + 1"
    using q(1) q(10) by (simp add: sum_list_incr)
  with Cons.IH [OF w] show ?case by simp
qed

lemma test_position_succeeds:
  assumes "f_idx st + j < length (inspection_count st)"
    and "seq_idx st < length (per_frame_error st)"
    and "f_idx st + j < length (per_frame_error st ! seq_idx st)"
    and "last_pass \<Longrightarrow> f_idx st + j < length (anom_scores st)"
  shows "\<exists>st'. test_position last_pass j pos st = Inr st'"
  using assms by (auto simp: test_position_def Let_def split: prod.splits)

lemma test_window_succeeds:
  assumes "f_idx st + j + length ps \<le> length (inspection_count st)"
    and "seq_idx st < length (per_frame_error st)"
    and "f_idx st + j + length ps \<le> length (per_frame_error st ! seq_idx st)"
    and "last_pass \<Longrightarrow> f_idx st + j + length ps \<le> length (anom_scores st)"
  shows "\<exists>st'. test_window last_pass j ps st = Inr st'"
  using assms
proof (induction ps arbitrary: j st)
  case Nil
  then show ?case by simp
next
  case (Cons pos rest)
  have "\<exists>st1. test_position last_pass j pos st = Inr st1"
    using Cons.prems by (intro test_position_succeeds) auto
  then obtain st1 where p: "test_position last_pass j pos st = Inr st1" ..
  note q = test_position_Inr [OF p]
  have "\<exists>st'. test_window last_pass (Suc j) rest st1 = Inr st'"
  proof (rule Cons.IH)
    show "f_idx st1 + Suc j + length rest \<le> length (inspection_count st1)"
      using Cons.prems(1) q(6) q(10) by simp
    show "seq_idx st1 < length (per_frame_error st1)"
      using Cons.prems(2) q(5) q(11) by simp
    show "f_idx st1 + Suc j + length rest \<le> length (per_frame_error st1 ! seq_idx st1)"
      using Cons.prems(2,3) q(5) q(6) q(11) by simp
    show "last_pass \<Longrightarrow> f_idx st1 + Suc j + length rest \<le> length (anom_scores st1)"
      using Cons.prems(4) q(6) q(12) by simp
  qed
  with p show ?case by simp
qed

lemma test_advance_step:
  assumes "int (f_idx st) < int (length (fnames st)) - tvol"
  shows "test_advance last_pass tvol dirs st = Inr (st\<lparr>f_idx := f_idx st + 1\<rparr>)"
  using assms by (simp add: test_advance_def)

lemma test_advance_next:
  assumes "\<not> int (f_idx st) < int (length (fnames st)) - tvol"
    and "seq_idx st < length dirs"
    and "list_all (\<lambda>c. 0 < c) (inspection_count st)"
  shows "\<exists>st'. test_advance last_pass tvol dirs st = Inr st'
           \<and> seq_idx st' = seq_idx st + 1 \<and> f_idx st' = 0
           \<and> inspection_count st' = inspection_count st
           \<and> per_frame_error st' = per_frame_error st"
  using assms by (simp add: test_advance_def Let_def)

lemma covering_step:
  "(if j = 0 then 0 else int (min j (Suc k) - (Suc k - T)))
     + (if j \<le> k \<and> k < j + T then 1 else 0)
   = int (min (Suc j) (Suc k) - (Suc k - T))"
  by (auto simp: min_def)

lemma covering_bounds:
  assumes "1 \<le> T" and "T \<le> L" and "k < L"
  shows "1 \<le> min (L - T + 1) (Suc k) - (Suc k - T)"
    and "min (L - T + 1) (Suc k) - (Suc k - T) \<le> T"
  using assms by (auto simp: min_def)

lemma test_items_progress:
  fixes T L s :: nat
  assumes "1 \<le> T" and "T \<le> L" and "s < length dirs"
  shows "f_idx st + length ws \<le> L - T + 1 \<Longrightarrow> \<forall>w\<in>set ws. length w = T \<Longrightarrow>
         seq_idx st = s \<Longrightarrow> length (fnames st) = L \<Longrightarrow> s < length (per_frame_error st) \<Longrightarrow>
         (f_idx st \<noteq> 0 \<Longrightarrow>
            length (inspection_count st) = L \<and> length (per_frame_error st ! s) = L
          \<and> length (anom_scores st) = L
          \<and> (\<forall>k<L. inspection_count st ! k = int (min (f_idx st) (Suc k) - (Suc k - T)))
          \<and> sum_list (inspection_count st) = int (f_idx st * T)) \<Longrightarrow>
         \<exists>st'. test_items last_pass (int T) dirs ws st = Inr st'
           \<and> length (fnames st') = L \<and> s < length (per_frame_error st')
           \<and> (if ws \<noteq> [] \<and> f_idx st + length ws = L - T + 1
              then seq_idx st' = s + 1 \<and> f_idx st' = 0
                 \<and> length (per_frame_error st' ! s) = L \<and> length (inspection_count st') = L
                 \<and> (\<forall>k<L. inspection_count st' ! k
                            = int (min (L - T + 1) (Suc k) - (Suc k - T)))
                 \<and> sum_list (inspection_count st') = int ((L - T + 1) * T)
              else seq_idx st' = s \<and> f_idx st' = f_idx st + length ws
                 \<and> (f_idx st' \<noteq> 0 \<longrightarrow>
                      length (inspection_count st') = L \<and> length (per_frame_error st' ! s) = L
                    \<and> length (anom_scores st') = L
                    \<and> (\<forall>k<L. inspection_count st' ! k
                               = int (min (f_idx st') (Suc k) - (Suc k - T)))
                    \<and> sum_list (inspection_count st') = int (f_idx st' * T)))"
proof (induction ws arbitrary: st)
  case Nil
  then show ?case by simp
next
  case (Cons w ws)
  let ?j = "f_idx st"
  from Cons.prems(2) have lw: "length w = T" by simp
  from Cons.prems(1) have jle: "?j + T \<le> L" using assms(1,2) by simp
  have "\<exists>st1. (if ?j = 0 then test_allocate st = Inr st1 else st1 = st)
          \<and> length (inspection_count st1) = L \<and> length (per_frame_error st1 ! s) = L
          \<and> length (anom_scores st1) = L \<and> seq_idx st1 = s \<and> f_idx st1 = ?j
          \<and> s < length (per_frame_error st1)
          \<and> sum_list (inspection_count st1) = int (?j * T)"
  proof (cases "?j = 0")
    case True
    have "0 < L" using assms(1,2) by simp
    then have "test_allocate st =
        Inr (st\<lparr>per_frame_error := (per_frame_error st)[s := replicate L []],
                im := Some (fnames st ! 0),
                anom_scores := replicate L 0,
                inspection_count := replicate L 0\<rparr>)"
      using True Cons.prems(3,4,5) by (simp add: test_allocate_def list_get_def)
    with True Cons.prems(3,5) show ?thesis by (simp add: sum_list_replicate)
  next
    case False
    with Cons.prems(3,5,6) show ?thesis by simp
  qed
  then obtain st1 where al: "if ?j = 0 then test_allocate st = Inr st1 else st1 = st"
    and len1: "length (inspection_count st1) = L" "length (per_frame_error st1 ! s) = L"
      "length (anom_scores st1) = L"
    and cur1: "seq_idx st1 = s" "f_idx st1 = ?j" "s < length (per_frame_error st1)"
    and sum1: "sum_list (inspection_count st1) = int (?j * T)"
    by blast
  have "\<exists>st2. test_window last_pass 0 w st1 = Inr st2"
    using len1 cur1 jle lw by (intro test_window_succeeds) simp_all
  then obtain st2 where wi: "test_window last_pass 0 w st1 = Inr st2" ..
  have ac: "test_accumulate last_pass w st = Inr st2"
    using al wi by (auto simp: test_accumulate_def split: if_splits)
  note ef = test_accumulate_effect [OF ac]
  have len2: "length (inspection_count st2) = L" "length (per_frame_error st2 ! s) = L"
      "length (anom_scores st2) = L"
    using ef(5,6) Cons.prems(3,4,6) by (cases "?j = 0"; simp)+
  have cnt2: "\<forall>k<L. inspection_count st2 ! k = int (min (Suc ?j) (Suc k) - (Suc k - T))"
  proof (intro allI impI)
    fix k assume k: "k < L"
    have "inspection_count st2 ! k =
        (if ?j = 0 then 0 else inspection_count st ! k)
          + (if ?j \<le> k \<and> k < ?j + length w then 1 else 0)"
      using ef(8) [of k] k len2(1) by simp
    also have "\<dots> = (if ?j = 0 then 0 else int (min ?j (Suc k) - (Suc k - T)))
          + (if ?j \<le> k \<and> k < ?j + T then 1 else 0)"
      using Cons.prems(6) k lw by simp
    also have "\<dots> = int (min (Suc ?j) (Suc k) - (Suc k - T))"
      by (rule covering_step)
    finally show "inspection_count st2 ! k = int (min (Suc ?j) (Suc k) - (Suc k - T))" .
  qed
  have sum2: "sum_list (inspection_count st2) = int (Suc ?j * T)"
    using test_window_sum [OF wi] sum1 lw by (simp add: algebra_simps)
  have cur2: "seq_idx st2 = s" "f_idx st2 = ?j" "length (fnames st2) = L"
    "s < length (per_frame_error st2)"
    using ef(1-3) Cons.prems(3,4) test_window_frame [OF wi] cur1 by simp_all
  show ?case
  proof (cases "?j = L - T")
    case True
    with Cons.prems(1) have ws: "ws = []" by simp
    from True have sj: "Suc ?j = L - T + 1" by simp
    have pos: "list_all (\<lambda>c. 0 < c) (inspection_count st2)"
      unfolding list_all_length
    proof (intro allI impI)
      fix k assume "k < length (inspection_count st2)"
      then have k: "k < L" using len2(1) by simp
      from covering_bounds(1) [OF assms(1,2) k] cnt2 k sj
      show "0 < inspection_count st2 ! k" by simp
    qed
    have "\<not> int (f_idx st2) < int (length (fnames st2)) - int T"
      using cur2 True assms(2) by simp
    from test_advance_next [OF this _ pos, of dirs last_pass] cur2(1) assms(3)
    obtain st' where ad: "test_advance last_pass (int T) dirs st2 = Inr st'"
      and r: "seq_idx st' = s + 1" "f_idx st' = 0"
        "inspection_count st' = inspection_count st2"
        "per_frame_error st' = per_frame_error st2"
      by auto
    have fn: "fnames st' = fnames st2"
      using test_advance_Inr(5) [OF ad] .
    have "test_items last_pass (int T) dirs (w # ws) st = Inr st'"
      using ws ac ad by (simp add: test_item_def)
    with r len2 cnt2 sum2 sj ws True cur2 fn show ?thesis by simp
  next
    case False
    with jle have j: "?j < L - T" by simp
    then have "int (f_idx st2) < int (length (fnames st2)) - int T"
      using cur2 by simp
    then have ad: "test_advance last_pass (int T) dirs st2 = Inr (st2\<lparr>f_idx := ?j + 1\<rparr>)"
      using cur2(2) by (simp add: test_advance_step)
    let ?st' = "st2\<lparr>f_idx := ?j + 1\<rparr>"
    have "\<exists>st''. test_items last_pass (int T) dirs ws ?st' = Inr st''
           \<and> length (fnames st'') = L \<and> s < length (per_frame_error st'')
           \<and> (if ws \<noteq> [] \<and> f_idx ?st' + length ws = L - T + 1
              then seq_idx st'' = s + 1 \<and> f_idx st'' = 0
                 \<and> length (per_frame_error st'' ! s) = L \<and> length (inspection_count st'') = L
                 \<and> (\<forall>k<L. inspection_count st'' ! k
                            = int (min (L - T + 1) (Suc k) - (Suc k - T)))
                 \<and> sum_list (inspection_count st'') = int ((L - T + 1) * T)
              else seq_idx st'' = s \<and> f_idx st'' = f_idx ?st' + length ws
                 \<and> (f_idx st'' \<noteq> 0 \<longrightarrow>
                      length (inspection_count st'') = L \<and> length (per_frame_error st'' ! s) = L
                    \<and> length (anom_scores st'') = L
                    \<and> (\<forall>k<L. inspection_count st'' ! k
                               = int (min (f_idx st'') (Suc k) - (Suc k - T)))
                    \<and> sum_list (inspection_count st'') = int (f_idx st'' * T)))"
    proof (rule Cons.IH)
      show "f_idx ?st' + length ws \<le> L - T + 1" using Cons.prems(1) by simp
      show "\<forall>w\<in>set ws. length w = T" using Cons.prems(2) by simp
      show "seq_idx ?st' = s" using cur2 by simp
      show "length (fnames ?st') = L" using cur2 by simp
      show "s < length (per_frame_error ?st')" using cur2 by simp
      show "length (inspection_count ?st') = L \<and> length (per_frame_error ?st' ! s) = L
          \<and> length (anom_scores ?st') = L
          \<and> (\<forall>k<L. inspection_count ?st' ! k = int (min (f_idx ?st') (Suc k) - (Suc k - T)))
          \<and> sum_list (inspection_count ?st') = int (f_idx ?st' * T)"
        using len2 cnt2 sum2 by simp
    qed
    then obtain st'' where ih: "test_items last_pass (int T) dirs ws ?st' = Inr st''"
      "length (fnames st'') = L" "s < length (per_frame_error st'')"
      "if ws \<noteq> [] \<and> f_idx ?st' + length ws = L - T + 1
              then seq_idx st'' = s + 1 \<and> f_idx st'' = 0
                 \<and> length (per_frame_error st'' ! s) = L \<and> length (inspection_count st'') = L
                 \<and> (\<forall>k<L. inspection_count st'' ! k
                            = int (min (L - T + 1) (Suc k) - (Suc k - T)))
                 \<and> sum_list (inspection_count st'') = int ((L - T + 1) * T)
              else seq_idx st'' = s \<and> f_idx st'' = f_idx ?st' + length ws
                 \<and> (f_idx st'' \<noteq> 0 \<longrightarrow>
                      length (inspection_count st'') = L \<and> length (per_frame_error st'' ! s) = L
                    \<and> length (anom_scores st'') = L
                    \<and> (\<forall>k<L. inspection_count st'' ! k
                               = int (min (f_idx st'') (Suc k) - (Suc k - T)))
                    \<and> sum_list (inspection_count st'') = int (f_idx st'' * T))"
      by blast
    have run: "test_items last_pass (int T) dirs (w # ws) st = Inr st''"
      using ac ad ih(1) by (simp add: test_item_def)
    show ?thesis
    proof (cases "ws = []")
      case True
      with ih(4) j run ih(2,3) show ?thesis by (auto split: if_splits)
    next
      case False
      with ih(4) run ih(2,3) show ?thesis by (auto split: if_splits)
    qed
  qed
qed

text \<open>
  A sequence whose \<open>L - T + 1\<close> windows are processed from \<^verbatim>\<open>f_idx = 0\<close> with its own
  listing in \<^verbatim>\<open>fnames\<close> gets \<open>L\<close> slots, every frame is inspected between 1 and \<open>T\<close>
  times, the counts add up to \<open>(L - T + 1) * T\<close>, and the assertion of line 80 holds:
  within one batch, and over several batches that the windows fill.
\<close>

lemma test_items_full_sequence:
  fixes T L s :: nat
  assumes "1 \<le> T" and "T \<le> L" and "s < length dirs"
    and "length ws = L - T + 1" and "\<forall>w\<in>set ws. length w = T"
    and "seq_idx st = s" and "f_idx st = 0" and "length (fnames st) = L"
    and "s < length (per_frame_error st)"
  shows "\<exists>st'. test_items last_pass (int T) dirs ws st = Inr st'
           \<and> seq_idx st' = s + 1 \<and> f_idx st' = 0
           \<and> length (per_frame_error st' ! s) = L \<and> length (inspection_count st') = L
           \<and> (\<forall>k<L. 1 \<le> inspection_count st' ! k \<and> inspection_count st' ! k \<le> int T)
           \<and> sum_list (inspection_count st') = int ((L - T + 1) * T)"
proof -
  from assms(4) have ne: "ws \<noteq> []" by auto
  from test_items_progress [OF assms(1-3), where st = st and ws = ws and last_pass = last_pass]
    assms(4-9) ne
  obtain st' where r: "test_items last_pass (int T) dirs ws st = Inr st'"
      "seq_idx st' = s + 1" "f_idx st' = 0"
      "length (per_frame_error st' ! s) = L" "length (inspection_count st') = L"
      "\<forall>k<L. inspection_count st' ! k = int (min (L - T + 1) (Suc k) - (Suc k - T))"
      "sum_list (inspection_count st') = int ((L - T + 1) * T)"
    by auto
  have "\<forall>k<L. 1 \<le> inspection_count st' ! k \<and> inspection_count st' ! k \<le> int T"
  proof (intro allI impI)
    fix k assume k: "k < L"
    from covering_bounds [OF assms(1,2) k] r(6) k
    show "1 \<le> inspection_count st' ! k \<and> inspection_count st' ! k \<le> int T"
      by simp
  qed
  with r show ?thesis by blast
qed

lemma test_pass_sequence_from:
  fixes T L s :: nat
  assumes "1 \<le> T" and "T \<le> L" and "s < length dirs" and "length (dirs ! s) = L"
  shows "bs \<noteq> [] \<Longrightarrow> \<forall>b\<in>set bs. gr b \<noteq> [] \<and> (\<forall>w\<in>set (gr b). length w = T) \<Longrightarrow>
         f_idx st + length (concat (map gr bs)) = L - T + 1 \<Longrightarrow>
         seq_idx st = s \<Longrightarrow> s < length (per_frame_error st) \<Longrightarrow>
         (f_idx st \<noteq> 0 \<Longrightarrow>
            length (inspection_count st) = L \<and> length (per_frame_error st ! s) = L
          \<and> length (anom_scores st) = L
          \<and> (\<forall>k<L. inspection_count st ! k = int (min (f_idx st) (Suc k) - (Suc k - T)))
          \<and> sum_list (inspection_count st) = int (f_idx st * T)) \<Longrightarrow>
         \<exists>st'. test_pass gr last_pass (int T) dirs bs st = Inr st'
           \<and> seq_idx st' = s + 1 \<and> f_idx st' = 0
           \<and> length (per_frame_error st' ! s) = L \<and> length (inspection_count st') = L
           \<and> (\<forall>k<L. inspection_count st' ! k = int (min (L - T + 1) (Suc k) - (Suc k - T)))
           \<and> sum_list (inspection_count st') = int ((L - T + 1) * T)"
proof (induction bs arbitrary: st)
  case Nil
  then show ?case by simp
next
  case (Cons b bs)
  let ?st0 = "st\<lparr>fnames := dirs ! s\<rparr>"
  have body: "test_batch_body gr last_pass (int T) dirs b st
      = test_items last_pass (int T) dirs (gr b) ?st0"
    using Cons.prems(4) assms(3) by (simp add: test_batch_body_def list_get_def)
  from Cons.prems(2) have nb: "gr b \<noteq> []" and lb: "\<forall>w\<in>set (gr b). length w = T"
    by simp_all
  have le: "f_idx ?st0 + length (gr b) \<le> L - T + 1"
    using Cons.prems(3) by simp
  from test_items_progress [OF assms(1-3) le lb, where last_pass = last_pass]
    Cons.prems(4,5,6) assms(4)
  obtain st1 where r: "test_items last_pass (int T) dirs (gr b) ?st0 = Inr st1"
      "length (fnames st1) = L" "s < length (per_frame_error st1)"
      "if gr b \<noteq> [] \<and> f_idx ?st0 + length (gr b) = L - T + 1
              then seq_idx st1 = s + 1 \<and> f_idx st1 = 0
                 \<and> length (per_frame_error st1 ! s) = L \<and> length (inspection_count st1) = L
                 \<and> (\<forall>k<L. inspection_count st1 ! k
                            = int (min (L - T + 1) (Suc k) - (Suc k - T)))
                 \<and> sum_list (inspection_count st1) = int ((L - T + 1) * T)
              else seq_idx st1 = s \<and> f_idx st1 = f_idx ?st0 + length (gr b)
                 \<and> (f_idx st1 \<noteq> 0 \<longrightarrow>
                      length (inspection_count st1) = L \<and> length (per_frame_error st1 ! s) = L
                    \<and> length (anom_scores st1) = L
                    \<and> (\<forall>k<L. inspection_count st1 ! k
                               = int (min (f_idx st1) (Suc k) - (Suc k - T)))
                    \<and> sum_list (inspection_count st1) = int (f_idx st1 * T))"
    by auto
  show ?case
  proof (cases "bs = []")
    case True
    with Cons.prems(3) have "f_idx ?st0 + length (gr b) = L - T + 1" by simp
    with r nb body True show ?thesis by simp
  next
    case False
    then obtain b' bs' where bs: "bs = b' # bs'" by (cases bs) auto
    with Cons.prems(2) have "gr b' \<noteq> []" by simp
    then have "0 < length (gr b')" by simp
    moreover have "length (concat (map gr bs)) = length (gr b') + length (concat (map gr bs'))"
      using bs by simp
    moreover have "length (concat (map gr (b # bs)))
        = length (gr b) + length (concat (map gr bs))"
      by simp
    moreover have "f_idx ?st0 = f_idx st" by simp
    ultimately have lt: "f_idx ?st0 + length (gr b) \<noteq> L - T + 1"
      using Cons.prems(3) by linarith
    with r(4) have mid: "seq_idx st1 = s" "f_idx st1 = f_idx st + length (gr b)"
      "f_idx st1 \<noteq> 0 \<longrightarrow>
                      length (inspection_count st1) = L \<and> length (per_frame_error st1 ! s) = L
                    \<and> length (anom_scores st1) = L
                    \<and> (\<forall>k<L. inspection_count st1 ! k
                               = int (min (f_idx st1) (Suc k) - (Suc k - T)))
                    \<and> sum_list (inspection_count st1) = int (f_idx st1 * T)"
      by simp_all
    have "\<exists>st'. test_pass gr last_pass (int T) dirs bs st1 = Inr st'
           \<and> seq_idx st' = s + 1 \<and> f_idx st' = 0
           \<and> length (per_frame_error st' ! s) = L \<and> length (inspection_count st') = L
           \<and> (\<forall>k<L. inspection_count st' ! k = int (min (L - T + 1) (Suc k) - (Suc k - T)))
           \<and> sum_list (inspection_count st') = int ((L - T + 1) * T)"
    proof (rule Cons.IH)
      show "bs \<noteq> []" by (rule False)
      show "\<forall>b\<in>set bs. gr b \<noteq> [] \<and> (\<forall>w\<in>set (gr b). length w = T)"
        using Cons.prems(2) by simp
      show "f_idx st1 + length (concat (map gr bs)) = L - T + 1"
        using Cons.prems(3) mid(2) by simp
      show "seq_idx st1 = s" by (rule mid(1))
      show "s < length (per_frame_error st1)" by (rule r(3))
      show "f_idx st1 \<noteq> 0 \<Longrightarrow>
            length (inspection_count st1) = L \<and> length (per_frame_error st1 ! s) = L
          \<and> length (anom_scores st1) = L
          \<and> (\<forall>k<L. inspection_count st1 ! k = int (min (f_idx st1) (Suc k) - (Suc k - T)))
          \<and> sum_list (inspection_count st1) = int (f_idx st1 * T)"
        using mid(3) by simp
    qed
    with body r(1) show ?thesis by simp
  qed
qed

lemma test_pass_full_sequence:
  fixes T L s :: nat
  assumes "1 \<le> T" and "T \<le> L" and "s < length dirs" and "length (dirs ! s) = L"
    and "\<forall>b\<in>set bs. gr b \<noteq> [] \<and> (\<forall>w\<in>set (gr b). length w = T)"
    and "length (concat (map gr bs)) = L - T + 1"
    and "seq_idx st = s" and "f_idx st = 0" and "s < length (per_frame_error st)"
  shows "\<exists>st'. test_pass gr last_pass (int T) dirs bs st = Inr st'
           \<and> seq_idx st' = s + 1 \<and> f_idx st' = 0
           \<and> length (per_frame_error st' ! s) = L \<and> length (inspection_count st') = L
           \<and> (\<forall>k<L. 1 \<le> inspection_count st' ! k \<and> inspection_count st' ! k \<le> int T)
           \<and> sum_list (inspection_count st') = int ((L - T + 1) * T)"
proof -
  from assms(6) have ne: "bs \<noteq> []" by auto
  from test_pass_sequence_from [OF assms(1-4) ne assms(5), where st = st and last_pass = last_pass]
    assms(6-9)
  obtain st' where r: "test_pass gr last_pass (int T) dirs bs st = Inr st'"
      "seq_idx st' = s + 1" "f_idx st' = 0"
      "length (per_frame_error st' ! s) = L" "length (inspection_count st') = L"
      "\<forall>k<L. inspection_count st' ! k = int (min (L - T + 1) (Suc k) - (Suc k - T))"
      "sum_list (inspection_count st') = int ((L - T + 1) * T)"
    by auto
  have "\<forall>k<L. 1 \<le> inspection_count st' ! k \<and> inspection_count st' ! k \<le> int T"
  proof (intro allI impI)
    fix k assume k: "k < L"
    from covering_bounds [OF assms(1,2) k] r(6) k
    show "1 \<le> inspection_count st' ! k \<and> inspection_count st' ! k \<le> int T"
      by simp
  qed
  with r show ?thesis by blast
qed

subsection \<open>The cursor, the allocation and the end of the pass\<close>




text \<open>
  C9, as amended. In every pass, whatever \<^verbatim>\<open>last\<close> is, lines 63 to 72 do this for a
  window: when it begins at \<^verbatim>\<open>f_idx = 0\<close> they allocate the error lists, the per-pixel
  score array and the inspection counters, each with one entry per file of the frame
  listing held; every position of the window adds 1 to its frame's inspection counter
  and appends its error to the frame's list. Only the per-pixel scores depend on
  \<^verbatim>\<open>last\<close>: without it they stay as allocated (or as they were), with it each position
  adds its squared residual.
\<close>

theorem test_accumulate_last_gating:
  assumes "test_accumulate last_pass w st = Inr st2"
  shows "(f_idx st = 0 \<longrightarrow>
            length (per_frame_error st2 ! seq_idx st) = length (fnames st)
          \<and> length (anom_scores st2) = length (fnames st)
          \<and> length (inspection_count st2) = length (fnames st))
       \<and> (\<forall>k<length (inspection_count st2).
            inspection_count st2 ! k =
              (if f_idx st = 0 then 0 else inspection_count st ! k)
                + (if f_idx st \<le> k \<and> k < f_idx st + length w then 1 else 0))
       \<and> (\<forall>j<length w.
            per_frame_error st2 ! seq_idx st ! (f_idx st + j) =
              (if f_idx st = 0 then [] else per_frame_error st ! seq_idx st ! (f_idx st + j))
                @ [fst (w ! j)])
       \<and> (\<not> last_pass \<longrightarrow>
            anom_scores st2 =
              (if f_idx st = 0 then replicate (length (fnames st)) 0 else anom_scores st))
       \<and> (last_pass \<longrightarrow>
            (\<forall>j<length w.
               anom_scores st2 ! (f_idx st + j) =
                 (if f_idx st = 0 then 0 else anom_scores st ! (f_idx st + j))
                   + (fst (snd (w ! j)) - snd (snd (w ! j)))
                     * (fst (snd (w ! j)) - snd (snd (w ! j)))))"
  using test_accumulate_effect(5,8,9,10,11) [OF assms] by blast

text \<open>
  With \<^verbatim>\<open>last\<close> false, the first window of a pass allocates the score array and the
  counters and counts its two frames.
\<close>

theorem test_accumulate_last_gating_counterexample:
  "test_batch_body id False 2 [[0, 1, 2 :: nat]] [ex_window] (test_init [[0, 1, 2 :: nat]])
    = Inr \<lparr>per_frame_error = [[[1], [2], []]], seq_idx = 0, f_idx = 1, fnames = [0, 1, 2],
          im = Some 0, anom_scores = [0, 0, 0 :: real], inspection_count = [1, 1, 0],
          saved_scores = []\<rparr>"
  by (simp add: test_batch_body_def test_item_def test_accumulate_def test_allocate_def
      test_position_def test_advance_def list_get_def test_init_def ex_window_def)

text \<open>With \<^verbatim>\<open>last\<close> true, the first window adds its squared residuals 1 and 0.\<close>

theorem test_accumulate_last_gating_witness:
  "test_accumulate True ex_window ((test_init [[0, 1, 2 :: nat]])\<lparr>fnames := [0, 1, 2]\<rparr>)
    = Inr \<lparr>per_frame_error = [[[1], [2], []]], seq_idx = 0, f_idx = 0, fnames = [0, 1, 2],
          im = Some 0, anom_scores = [1, 0, 0 :: real], inspection_count = [1, 1, 0],
          saved_scores = []\<rparr>
   \<and> length [1, 0, 0 :: real] = length [0, 1, 2 :: nat]
   \<and> [1, 1, 0 :: int] ! 0 = 0 + 1"
proof -
  have run: "test_accumulate True ex_window
      ((test_init [[0, 1, 2 :: nat]])\<lparr>fnames := [0, 1, 2]\<rparr>)
    = Inr \<lparr>per_frame_error = [[[1], [2], []]], seq_idx = 0, f_idx = 0, fnames = [0, 1, 2],
          im = Some 0, anom_scores = [1, 0, 0 :: real], inspection_count = [1, 1, 0],
          saved_scores = []\<rparr>"
    by (simp add: test_accumulate_def test_allocate_def test_position_def
        list_get_def test_init_def ex_window_def)
  from test_accumulate_last_gating [OF run] run show ?thesis
    by (simp add: test_init_def)
qed



text \<open>
  C1, on two sequences of 3 and 4 frames with windows of length 2, the data source
  answering a batch of 3 windows and a batch of 2. The third window opens the second
  sequence inside the first batch. The listing is not refreshed there (line 77 tests
  \<^verbatim>\<open>len(dirs) < seq_idx\<close>), so the sequence of 4 frames gets 3 slots, and its last window
  ends the pass with IndexError. Where a sequence opens a batch, \<open>test_pass_full_sequence\<close>
  gives the \<open>L\<close> slots and the counts.
\<close>

theorem test_straddle_index_error:
  "test_pass id False 2 [[0, 1, 2 :: nat], [0, 1, 2, 3]] [[ex_window, ex_window, ex_window]]
      (test_init [[0, 1, 2 :: nat], [0, 1, 2, 3]])
    = Inr \<lparr>per_frame_error = [[[1], [2, 1], [2]], [[1], [2], []]], seq_idx = 1, f_idx = 1,
          fnames = [0, 1, 2], im = Some 0, anom_scores = [0, 0, 0 :: real],
          inspection_count = [1, 1, 0], saved_scores = []\<rparr>
   \<and> test_while list_source id False 2 [[0, 1, 2 :: nat], [0, 1, 2, 3]]
       [[ex_window, ex_window, ex_window], [ex_window, ex_window]]
       (test_init [[0, 1, 2 :: nat], [0, 1, 2, 3]])
     = Some (Inl IndexError :: error + (nat, real) eval_state, [])"
  by code_simp

text \<open>
  C2, on three sequences of 4, 3 and 4 frames with windows of length 2 and two batches
  of 4 windows, which hold all 3 + 2 + 3 windows. The sequence of 3 frames opens inside
  the first batch with 4 counters; its 3 frames are all inspected, the fourth counter
  stays 0, and the assertion of line 80 fails where the sequence ends. Where a sequence
  opens a batch, \<open>test_pass_full_sequence\<close> has the assertion hold.
\<close>

theorem test_straddle_assertion_error:
  "test_pass id False 2 [[0, 1, 2, 3 :: nat], [0, 1, 2], [0, 1, 2, 3]]
      [[ex_window, ex_window, ex_window, ex_window]]
      (test_init [[0, 1, 2, 3 :: nat], [0, 1, 2], [0, 1, 2, 3]])
    = Inr \<lparr>per_frame_error = [[[1], [2, 1], [2, 1], [2]], [[1], [2], [], []], []],
          seq_idx = 1, f_idx = 1, fnames = [0, 1, 2, 3], im = Some 0,
          anom_scores = [0, 0, 0, 0 :: real], inspection_count = [1, 1, 0, 0],
          saved_scores = []\<rparr>
   \<and> test_while list_source id False 2 [[0, 1, 2, 3 :: nat], [0, 1, 2], [0, 1, 2, 3]]
       [[ex_window, ex_window, ex_window, ex_window],
        [ex_window, ex_window, ex_window, ex_window]]
       (test_init [[0, 1, 2, 3 :: nat], [0, 1, 2], [0, 1, 2, 3]])
     = Some (Inl AssertionError :: error + (nat, real) eval_state, [])"
  by code_simp

section \<open>Per-video normalisation\<close>

lemma np_min_Min: "v \<noteq> [] \<Longrightarrow> np_min v = Inr (Min (set v))"
proof (cases v)
  case Nil
  assume "v \<noteq> []"
  with Nil show ?thesis by simp
next
  case (Cons a rest)
  have "fold min rest a = Min (set (a # rest))"
    by (rule Min.set_eq_fold [symmetric])
  with Cons show ?thesis by (simp add: np_min_def)
qed

lemma np_max_Max: "v \<noteq> [] \<Longrightarrow> np_max v = Inr (Max (set v))"
proof (cases v)
  case Nil
  assume "v \<noteq> []"
  with Nil show ?thesis by simp
next
  case (Cons a rest)
  have "fold max rest a = Max (set (a # rest))"
    by (rule Max.set_eq_fold [symmetric])
  with Cons show ?thesis by (simp add: np_max_def)
qed

lemma normalize_video_nonempty:
  "v \<noteq> [] \<Longrightarrow>
   normalize_video v =
     Inr (map (\<lambda>x. np_divide (x - Min (set v)) (Max (set v) - Min (set v))) v)"
  by (simp add: normalize_video_def np_min_Min np_max_Max)

lemma per_video_normalize_nonempty:
  assumes "\<forall>v\<in>set pfe. v \<noteq> []"
  shows "\<exists>err. per_video_normalize pfe = Inr err \<and> length err = length pfe
           \<and> (\<forall>i<length pfe. normalize_video (pfe ! i) = Inr (err ! i))"
  using assms
proof (induction pfe)
  case Nil
  then show ?case by simp
next
  case (Cons v vs)
  then obtain rs where rs: "per_video_normalize vs = Inr rs" "length rs = length vs"
      "\<forall>i<length vs. normalize_video (vs ! i) = Inr (rs ! i)"
    by auto
  from Cons.prems have "v \<noteq> []" by simp
  then obtain r where r: "normalize_video v = Inr r"
    by (simp add: normalize_video_nonempty)
  have "\<forall>i<length (v # vs). normalize_video ((v # vs) ! i) = Inr ((r # rs) ! i)"
    using r rs(3) by (auto simp: nth_Cons split: nat.splits)
  with r rs show ?case by simp
qed




text \<open>
  C6, as amended. When no vector is empty, \<^verbatim>\<open>per_video_normalize\<close> raises nothing for a
  sequence whose maximum equals its minimum: it returns, and the vector of this
  sequence has the same length with \<^verbatim>\<open>nan\<close> in every entry.
\<close>

theorem per_video_normalize_constant:
  assumes "\<forall>v\<in>set pfe. v \<noteq> []" and "i < length pfe"
    and "Max (set (pfe ! i)) = Min (set (pfe ! i))"
  shows "\<exists>err. per_video_normalize pfe = Inr err \<and> length err = length pfe
           \<and> err ! i = replicate (length (pfe ! i)) NaN"
proof -
  from per_video_normalize_nonempty [OF assms(1)] assms(2)
  obtain err where e: "per_video_normalize pfe = Inr err" "length err = length pfe"
      "normalize_video (pfe ! i) = Inr (err ! i)"
    by blast
  let ?v = "pfe ! i"
  from assms(1,2) have ne: "?v \<noteq> []" by simp
  have "\<And>a. a \<in> set ?v \<Longrightarrow> a = Min (set ?v)"
  proof -
    fix a assume a: "a \<in> set ?v"
    then have "Min (set ?v) \<le> a" and "a \<le> Max (set ?v)" by simp_all
    with assms(3) show "a = Min (set ?v)" by simp
  qed
  then have "map (\<lambda>x. np_divide (x - Min (set ?v)) (Max (set ?v) - Min (set ?v))) ?v
      = map (\<lambda>x. NaN) ?v"
    using assms(3) by (intro map_cong) (simp_all add: np_divide_def)
  then have "normalize_video ?v = Inr (replicate (length ?v) NaN)"
    by (simp add: normalize_video_nonempty [OF ne] map_replicate_const)
  with e show ?thesis by simp
qed

text \<open>A constant vector is normalised to \<^verbatim>\<open>nan\<close> entries, and no exception is raised.\<close>

theorem per_video_normalize_constant_counterexample:
  "per_video_normalize [[1, 1, 1]] = Inr [[NaN, NaN, NaN]]"
  by (simp add: normalize_video_def np_min_def np_max_def np_divide_def)

theorem per_video_normalize_constant_witness:
  "per_video_normalize [[0, 2, 4], [3, 3]] =
     Inr [[Finite 0, Finite (1 / 2), Finite 1], [NaN, NaN]]"
proof -
  have "\<forall>v\<in>set [[0, 2, 4], [3, 3 :: real]]. v \<noteq> []" by simp
  from per_video_normalize_constant [OF this, of 1]
  show ?thesis
    by (simp add: normalize_video_def np_min_def np_max_def np_divide_def)
qed

section \<open>The training loop\<close>












lemma train_step_artifacts:
  assumes "pixel_aucs st = []" and "\<forall>c\<in>set (calls st). \<not> is_artifact c"
  shows "pixel_aucs (reached (train_step env mp p i st)) = []
       \<and> (\<forall>c\<in>set (calls (reached (train_step env mp p i st))). \<not> is_artifact c)"
  using assms
  by (auto simp: train_step_def Let_def reached_def is_artifact_def
      split: prod.splits sum.splits if_splits)

lemma train_loop_artifacts:
  assumes "pixel_aucs st = []" and "\<forall>c\<in>set (calls st). \<not> is_artifact c"
  shows "pixel_aucs (reached (train_loop env mp p is st)) = []
       \<and> (\<forall>c\<in>set (calls (reached (train_loop env mp p is st))). \<not> is_artifact c)"
  using assms
proof (induction "is" arbitrary: st)
  case Nil
  then show ?case by (simp add: reached_def)
next
  case (Cons i "is")
  note step = train_step_artifacts [OF Cons.prems, of env mp p i]
  show ?case
  proof (cases "train_step env mp p i st")
    case (Inl x)
    with step show ?thesis by (simp add: reached_def)
  next
    case (Inr st1)
    with step have "pixel_aucs st1 = []" and "\<forall>c\<in>set (calls st1). \<not> is_artifact c"
      by (simp_all add: reached_def)
    from Cons.IH [OF this] Inr show ?thesis by simp
  qed
qed

lemma os_path_join_inject:
  assumes "os_path_join a b = os_path_join a c" and "b \<noteq> []" and "c \<noteq> []"
    and "hd b \<noteq> CHR ''/''" and "hd c \<noteq> CHR ''/''"
  shows "b = c"
  using assms by (auto simp: os_path_join_def split: if_splits)

lemma train_outcome_calls:
  assumes "train_loop env mp p [0..n] (train_init d m) = Inr st"
  shows "calls (outcome_state (train env n rp mp p d m)) =
           calls st @
             [NpSave (os_path_join rp ''frame_aucs.npy'') (frame_aucs st),
              NpSave (os_path_join rp ''pixel_aucs.npy'') (pixel_aucs st),
              PlotLoss (losses st) (valid_losses st) rp,
              PlotAuc (frame_aucs st) rp ''Frame'',
              PlotAuc (pixel_aucs st) rp ''Pixel'',
              RestoreModel mp, Test True]"
    and "pixel_aucs (outcome_state (train env n rp mp p d m)) = pixel_aucs st"
  using assms
  by (auto simp: train_def Let_def outcome_state_def train_persist_def
      split: sum.splits prod.splits)

lemma train_outcome_raised:
  assumes "train_loop env mp p [0..n] (train_init d m) = Inl x"
  shows "outcome_state (train env n rp mp p d m)
           = reached (train_loop env mp p [0..n] (train_init d m))"
  using assms by (simp add: train_def outcome_state_def reached_def)

lemma pixel_path_neq_frame_path:
  "os_path_join rp ''frame_aucs.npy'' \<noteq> os_path_join rp ''pixel_aucs.npy''"
proof
  assume "os_path_join rp ''frame_aucs.npy'' = os_path_join rp ''pixel_aucs.npy''"
  then have "''frame_aucs.npy'' = ''pixel_aucs.npy''"
    by (rule os_path_join_inject) simp_all
  then show False by simp
qed

text \<open>
  C10. However a run of \<^verbatim>\<open>train\<close> ends, its list of pixel AUCs is empty, every array it
  has saved as \<^verbatim>\<open>pixel_aucs.npy\<close> is empty and every pixel-level AUC plot it has made
  is over an empty list; once the loop has completed, both have been made.
\<close>

theorem train_pixel_aucs_empty:
  "pixel_aucs (outcome_state (train env n rp mp p d m)) = []
   \<and> (\<forall>xs. NpSave (os_path_join rp ''pixel_aucs.npy'') xs
              \<in> set (calls (outcome_state (train env n rp mp p d m))) \<longrightarrow> xs = [])
   \<and> (\<forall>xs path. PlotAuc xs path ''Pixel''
              \<in> set (calls (outcome_state (train env n rp mp p d m))) \<longrightarrow> xs = [])
   \<and> (\<forall>st. train_loop env mp p [0..n] (train_init d m) = Inr st \<longrightarrow>
          NpSave (os_path_join rp ''pixel_aucs.npy'') []
            \<in> set (calls (outcome_state (train env n rp mp p d m)))
        \<and> PlotAuc [] rp ''Pixel'' \<in> set (calls (outcome_state (train env n rp mp p d m))))"
proof -
  have init: "pixel_aucs (train_init d m) = []"
      "\<forall>c\<in>set (calls (train_init d m)). \<not> is_artifact c"
    by (simp_all add: train_init_def is_artifact_def)
  note inv = train_loop_artifacts [OF init, of env mp p "[0..n]"]
  show ?thesis
  proof (cases "train_loop env mp p [0..n] (train_init d m)")
    case (Inl x)
    from inv have "pixel_aucs (outcome_state (train env n rp mp p d m)) = []"
      and no: "\<forall>c\<in>set (calls (outcome_state (train env n rp mp p d m))). \<not> is_artifact c"
      unfolding train_outcome_raised [OF Inl] by simp_all
    moreover from no have "\<And>path xs. NpSave path xs
        \<notin> set (calls (outcome_state (train env n rp mp p d m)))"
      by (auto simp: is_artifact_def)
    moreover from no have "\<And>xs path level. PlotAuc xs path level
        \<notin> set (calls (outcome_state (train env n rp mp p d m)))"
      by (auto simp: is_artifact_def)
    ultimately show ?thesis using Inl by simp
  next
    case (Inr st)
    from inv Inr have px: "pixel_aucs st = []"
      and no: "\<forall>c\<in>set (calls st). \<not> is_artifact c"
      by (simp_all add: reached_def)
    from no have n1: "\<And>path xs. NpSave path xs \<notin> set (calls st)"
      by (auto simp: is_artifact_def)
    from no have n2: "\<And>xs path level. PlotAuc xs path level \<notin> set (calls st)"
      by (auto simp: is_artifact_def)
    show ?thesis
      unfolding train_outcome_calls [OF Inr]
      using px n1 n2 Inr pixel_path_neq_frame_path [of rp]
      by auto
  qed
qed

theorem train_pixel_aucs_empty_witness:
  "train_loop ex_env ''models'' 2 [0..3] (train_init [0.5, 0.7, 0.6, 0.9, 0.9] 0) =
     Inr \<lparr>data = [0.6, 0.9, 0.9], model = 4, frame_aucs = [0.5, 0.7], frame_eers = [0, 0],
          pixel_aucs = [], pixel_eers = [], losses = [0, 0, 0, 0], valid_losses = [0, 0],
          best_auc = 0.7,
          calls =
            [LogStart,
             BatchTrain, LogTrainLoss 2 [0], Test False, LogFrameAuc 0 0.5, LogValidLoss 0 0,
             SaveModel ''models'',
             BatchTrain,
             BatchTrain, LogTrainLoss 2 [0, 0], Test False, LogFrameAuc 2 0.7, LogValidLoss 2 0,
             SaveModel ''models'',
             BatchTrain]\<rparr>
   \<and> NpSave ''results/pixel_aucs.npy'' []
       \<in> set (calls (outcome_state
            (train ex_env 3 ''results'' ''models'' 2 [0.5, 0.7, 0.6, 0.9, 0.9] 0)))
   \<and> PlotAuc [] ''results'' ''Pixel''
       \<in> set (calls (outcome_state
            (train ex_env 3 ''results'' ''models'' 2 [0.5, 0.7, 0.6, 0.9, 0.9] 0)))
   \<and> frame_aucs (outcome_state
        (train ex_env 3 ''results'' ''models'' 2 [0.5, 0.7, 0.6, 0.9, 0.9] 0)) = [0.5, 0.7]"
proof -
  have run: "train_loop ex_env ''models'' 2 [0..3] (train_init [0.5, 0.7, 0.6, 0.9, 0.9] 0) =
     Inr \<lparr>data = [0.6, 0.9, 0.9], model = 4, frame_aucs = [0.5, 0.7], frame_eers = [0, 0],
          pixel_aucs = [], pixel_eers = [], losses = [0, 0, 0, 0], valid_losses = [0, 0],
          best_auc = 0.7,
          calls =
            [LogStart,
             BatchTrain, LogTrainLoss 2 [0], Test False, LogFrameAuc 0 0.5, LogValidLoss 0 0,
             SaveModel ''models'',
             BatchTrain,
             BatchTrain, LogTrainLoss 2 [0, 0], Test False, LogFrameAuc 2 0.7, LogValidLoss 2 0,
             SaveModel ''models'',
             BatchTrain]\<rparr>"
    by (simp add: upto.simps train_step_def train_init_def ex_env_def py_slice_from_def)
  have fa: "frame_aucs (outcome_state
        (train ex_env 3 ''results'' ''models'' 2 [0.5, 0.7, 0.6, 0.9, 0.9] 0)) = [0.5, 0.7]"
    using run
    by (simp add: train_def Let_def train_persist_def outcome_state_def ex_env_def)
  from train_pixel_aucs_empty [of ex_env 3 "''results''" "''models''" 2
      "[0.5, 0.7, 0.6, 0.9, 0.9]" 0] run fa
  show ?thesis by (simp add: os_path_join_def)
qed

end
